theory Spec2Isabelle
  imports Complex_Main
begin

section \<open>The three-body simulation of app.py\<close>

text \<open>
  The physics core of \<^verbatim>\<open>src/app.py\<close>: the pairwise gravitational force, the
  accumulation of the net force on a body, the Euler step, the reflection at the
  window's edges, the trace of past positions and the handler that spawns a body.

  Numbers are mathematical reals and arithmetic is exact, with one exception: in
  \<^verbatim>\<open>calculate_gravitational_force\<close> every operation is rounded to an IEEE 754
  binary64 number, because the function compares a rounded distance with 40 and the
  rounding decides which branch runs. Overflow, underflow and NaN are outside this
  model. Every exception the source can raise on real inputs is a value of \<open>error\<close>.
\<close>

subsection \<open>Module constants\<close>

definition width :: real where
  "width = 800"

definition height :: real where
  "height = 600"

definition G :: real where
  "G = 98 / 10"

definition REBOUND_FACTOR :: real where
  "REBOUND_FACTOR = 5 / 10"

definition MASS :: real where
  "MASS = 10"

type_synonym color = "int \<times> int \<times> int"

definition COLORS :: "color list" where
  "COLORS =
     [(217, 237, 146), (93, 115, 126), (30, 96, 145), (62, 63, 63),
      (143, 45, 86), (116, 0, 184), (56, 4, 14)]"

subsection \<open>Python's exceptions and library functions\<close>

datatype error = ValueError | ZeroDivisionError | IndexError

text \<open>\<^verbatim>\<open>int(r)\<close> on a float truncates towards zero.\<close>

definition py_int :: "real \<Rightarrow> int" where
  "py_int r = (if r < 0 then \<lceil>r\<rceil> else \<lfloor>r\<rfloor>)"

text \<open>
  Subscripting a list of length \<open>n\<close>: positions \<open>0\<close> to \<open>n - 1\<close> read from the front,
  positions \<open>-n\<close> to \<open>-1\<close> read from the back, anything else raises IndexError.
\<close>

definition py_index :: "'a list \<Rightarrow> int \<Rightarrow> error + 'a" where
  "py_index xs i =
     (if 0 \<le> i \<and> i < int (length xs) then Inr (xs ! nat i)
      else if - int (length xs) \<le> i \<and> i < 0 then Inr (xs ! nat (int (length xs) + i))
      else Inl IndexError)"

text \<open>
  Python's \<^verbatim>\<open>float\<close> is IEEE 754 binary64: the result of an operation is the exact
  result rounded to the nearest number with a significand of 53 bits, a tie going to
  the even significand. \<open>rne\<close> rounds to the nearest integer in this way. For a real
  \<open>r\<close> with \<open>2 ^ e \<le> \<bar>r\<bar> < 2 ^ (e + 1)\<close> the neighbouring binary64 numbers are
  \<open>2 ^ (e - 52)\<close> apart, and \<open>f64\<close> rounds \<open>r\<close> to the nearest multiple of that step.
  The exponent is unbounded here.
\<close>

definition rne :: "real \<Rightarrow> int" where
  "rne q =
     (if q - of_int \<lfloor>q\<rfloor> < 1 / 2 then \<lfloor>q\<rfloor>
      else if 1 / 2 < q - of_int \<lfloor>q\<rfloor> then \<lfloor>q\<rfloor> + 1
      else if even \<lfloor>q\<rfloor> then \<lfloor>q\<rfloor>
      else \<lfloor>q\<rfloor> + 1)"

definition f64 :: "real \<Rightarrow> real" where
  "f64 r =
     (if r = 0 then 0
      else
        let e = \<lfloor>log 2 \<bar>r\<bar>\<rfloor>;
            u = 2 powr (of_int e - 52)
        in of_int (rne (r / u)) * u)"

text \<open>
  \<^verbatim>\<open>math.atan2(v, u)\<close>, the angle of the point \<open>(u, v)\<close> in \<open>(-pi, pi]\<close>, by
  quadrant; at the origin it is 0.
\<close>

definition atan2 :: "real \<Rightarrow> real \<Rightarrow> real" where
  "atan2 v u =
     (if 0 < u then arctan (v / u)
      else if u < 0 \<and> 0 \<le> v then arctan (v / u) + pi
      else if u < 0 then arctan (v / u) - pi
      else if 0 < v then pi / 2
      else if v < 0 then - (pi / 2)
      else 0)"

subsection \<open>class Body\<close>

record Body =
  x :: real
  y :: real
  mass :: real
  radius :: int
  vx :: real
  vy :: real
  color :: color
  trace :: "(real \<times> real) list"

text \<open>\<^verbatim>\<open>Body.__init__\<close>: \<^verbatim>\<open>math.sqrt\<close> raises ValueError on a negative mass.\<close>

definition Body_init :: "real \<Rightarrow> real \<Rightarrow> real \<Rightarrow> real \<times> real \<Rightarrow> color \<Rightarrow> error + Body" where
  "Body_init px py m velocity c =
     (if m < 0 then Inl ValueError
      else Inr \<lparr>x = px, y = py, mass = m, radius = py_int (sqrt m * 2),
                vx = fst velocity, vy = snd velocity, color = c, trace = []\<rparr>)"

text \<open>\<^verbatim>\<open>Body.__eq__\<close> compares the colors; \<^verbatim>\<open>!=\<close> is its negation.\<close>

definition Body_eq :: "Body \<Rightarrow> Body \<Rightarrow> bool" where
  "Body_eq self other = (if color self = color other then True else False)"

definition Body_ne :: "Body \<Rightarrow> Body \<Rightarrow> bool" where
  "Body_ne self other = (\<not> Body_eq self other)"

text \<open>\<^verbatim>\<open>Body.update_trace\<close>: append, then drop the first point when the length is 100.\<close>

definition update_trace :: "Body \<Rightarrow> Body" where
  "update_trace self =
     (let t = trace self @ [(x self, y self)]
      in self\<lparr>trace := (if length t = 100 then tl t else t)\<rparr>)"

text \<open>\<^verbatim>\<open>Body.check_boundaries\<close>: the vertical test first, then the horizontal one.\<close>

definition check_boundaries :: "Body \<Rightarrow> Body" where
  "check_boundaries self =
     (let s1 = (if y self < 0 then self\<lparr>y := 0, vy := vy self * (- REBOUND_FACTOR)\<rparr>
                else if y self > height then self\<lparr>y := height, vy := vy self * (- REBOUND_FACTOR)\<rparr>
                else self)
      in if x s1 < 0 then s1\<lparr>x := 0, vx := vx s1 * (- REBOUND_FACTOR)\<rparr>
         else if x s1 > width then s1\<lparr>x := width, vx := vx s1 * (- REBOUND_FACTOR)\<rparr>
         else s1)"

text \<open>
  The first six lines of \<^verbatim>\<open>Body.update\<close>: the velocity from the acceleration, then
  the position from the new velocity. The division raises ZeroDivisionError on mass 0.
\<close>

definition integrate :: "Body \<Rightarrow> real \<Rightarrow> real \<Rightarrow> error + Body" where
  "integrate self force_x force_y =
     (if mass self = 0 then Inl ZeroDivisionError
      else
        let ax = force_x / mass self;
            ay = force_y / mass self;
            s1 = self\<lparr>vx := vx self + ax\<rparr>;
            s2 = s1\<lparr>vy := vy s1 + ay\<rparr>;
            s3 = s2\<lparr>x := x s2 + vx s2\<rparr>;
            s4 = s3\<lparr>y := y s3 + vy s3\<rparr>
        in Inr s4)"

text \<open>\<^verbatim>\<open>Body.update\<close>: integrate, reflect, record.\<close>

definition update :: "Body \<Rightarrow> real \<Rightarrow> real \<Rightarrow> error + Body" where
  "update self force_x force_y =
     (case integrate self force_x force_y of
        Inl e \<Rightarrow> Inl e
      | Inr s \<Rightarrow> Inr (update_trace (check_boundaries s)))"

subsection \<open>The force between two bodies\<close>

text \<open>
  \<^verbatim>\<open>calculate_gravitational_force\<close>, each arithmetic operation and each call of the
  math library followed by the rounding to binary64. Subtraction, addition, division
  and \<^verbatim>\<open>math.sqrt\<close> round in this way by the standard. For the squares and for
  \<^verbatim>\<open>math.atan2\<close>, \<^verbatim>\<open>math.cos\<close> and \<^verbatim>\<open>math.sin\<close> the rounded exact value stands
  for the library's result; of the last three, the facts below use only that a rounded
  value is 0 exactly when the exact one is.
\<close>

definition calculate_gravitational_force :: "Body \<Rightarrow> Body \<Rightarrow> real \<times> real" where
  "calculate_gravitational_force p1 p2 =
     (let dx = f64 (x p2 - x p1);
          dy = f64 (y p2 - y p1);
          distance = max 1 (f64 (sqrt (f64 (f64 (dx\<^sup>2) + f64 (dy\<^sup>2)))))
      in if distance < 40 then (0, 0)
         else
           let force = f64 (f64 (f64 (G * mass p1) * mass p2) / f64 (distance\<^sup>2));
               angle = f64 (atan2 dy dx);
               force_x = f64 (force * f64 (cos angle));
               force_y = f64 (force * f64 (sin angle))
           in (force_x, force_y))"

subsection \<open>The net force\<close>

text \<open>
  \<^verbatim>\<open>add_tuples\<close>: one pass over the indices of a flat tuple, the even positions summed
  in the first component and the odd ones in the second.
\<close>

definition add_tuples :: "real list \<Rightarrow> real \<times> real" where
  "add_tuples t =
     fold (\<lambda>i (even, odd). if i mod 2 = 0 then (even + t ! i, odd) else (even, odd + t ! i))
       [0..<length t] (0, 0)"

text \<open>
  The loop of \<^verbatim>\<open>Body.calculate_grav_force\<close>: the tuple \<^verbatim>\<open>force\<close> starts as
  \<open>(0, 0)\<close> and \<^verbatim>\<open>+=\<close> appends the two components of each pairwise force.
\<close>

definition force_tuple :: "Body \<Rightarrow> Body list \<Rightarrow> real list" where
  "force_tuple self bodies =
     fold (\<lambda>body force.
             if Body_ne body self
             then force @ [fst (calculate_gravitational_force self body),
                           snd (calculate_gravitational_force self body)]
             else force)
       bodies [0, 0]"

definition net_force :: "Body \<Rightarrow> Body list \<Rightarrow> real \<times> real" where
  "net_force self bodies = add_tuples (force_tuple self bodies)"

definition calculate_grav_force :: "Body \<Rightarrow> Body list \<Rightarrow> error + Body" where
  "calculate_grav_force self bodies =
     (let (force1x, force1y) = net_force self bodies
      in update self force1x force1y)"

subsection \<open>One frame of main and its event handler\<close>

text \<open>
  \<^verbatim>\<open>for body in bodies: body.calculate_grav_force(bodies)\<close>: a body is updated in
  place, so the bodies after it see its new position.
\<close>

fun step_loop :: "nat list \<Rightarrow> Body list \<Rightarrow> error + Body list" where
  "step_loop [] bodies = Inr bodies"
| "step_loop (i # js) bodies =
     (case calculate_grav_force (bodies ! i) bodies of
        Inl e \<Rightarrow> Inl e
      | Inr b \<Rightarrow> step_loop js (bodies[i := b]))"

definition step :: "Body list \<Rightarrow> error + Body list" where
  "step bodies = step_loop [0..<length bodies] bodies"

text \<open>
  The branch of main's event loop for a mouse click. The result is the collection and
  the warnings logged.
\<close>

definition max_bodies_warning :: string where
  "max_bodies_warning = ''You've reached the maximum of bodies!''"

definition mousebuttondown :: "Body list \<Rightarrow> real \<times> real \<Rightarrow> error + (Body list \<times> string list)" where
  "mousebuttondown bodies mouse =
     (if length bodies < 10 then
        (case py_index COLORS (int (length bodies) - 3) of
           Inl e \<Rightarrow> Inl e
         | Inr c \<Rightarrow>
             (case Body_init (fst mouse) (snd mouse) MASS (1 / 10, 1 / 10) c of
                Inl e \<Rightarrow> Inl e
              | Inr b \<Rightarrow> Inr (bodies @ [b], [])))
      else Inr (bodies, [max_bodies_warning]))"

text \<open>
  The collection main starts with: three bodies of mass \<open>MASS\<close> on the corners of a
  triangle of side 200. The source's local \<^verbatim>\<open>x\<close>, the height of the triangle, is
  \<open>h\<close> here.
\<close>

definition main_bodies :: "error + Body list" where
  "main_bodies =
     (let side = 200;
          h = sqrt (side\<^sup>2 - (side / 2)\<^sup>2);
          initial_x = 300;
          initial_y = 400
      in case Body_init initial_x initial_y MASS (1 / 10, 1 / 10) (116, 148, 196) of
           Inl e \<Rightarrow> Inl e
         | Inr body1 \<Rightarrow>
             (case Body_init ((initial_x + (initial_x + side)) / 2) (initial_y - h) MASS
                     (- (1 / 10), 1 / 10) (106, 77, 97) of
                Inl e \<Rightarrow> Inl e
              | Inr body2 \<Rightarrow>
                  (case Body_init (initial_x + side) initial_y MASS (1 / 10, - (1 / 10))
                          (195, 212, 7) of
                     Inl e \<Rightarrow> Inl e
                   | Inr body3 \<Rightarrow> Inr [body1, body2, body3])))"

section \<open>The notions of the specification\<close>

text \<open>
  The Euclidean separation of two bodies, exact, and the value of the variable
  \<^verbatim>\<open>distance\<close> of \<^verbatim>\<open>calculate_gravitational_force\<close>, which is what the source
  compares with 40.
\<close>

definition separation :: "Body \<Rightarrow> Body \<Rightarrow> real" where
  "separation a b = sqrt ((x b - x a)\<^sup>2 + (y b - y a)\<^sup>2)"

definition computed_distance :: "Body \<Rightarrow> Body \<Rightarrow> real" where
  "computed_distance p1 p2 =
     max 1 (f64 (sqrt (f64 (f64 ((f64 (x p2 - x p1))\<^sup>2) + f64 ((f64 (y p2 - y p1))\<^sup>2)))))"

text \<open>The closed rectangle of the window.\<close>

definition in_domain :: "Body \<Rightarrow> bool" where
  "in_domain b = (0 \<le> x b \<and> x b \<le> width \<and> 0 \<le> y b \<and> y b \<le> height)"

text \<open>
  The specification's net force: a running total for each component, and the bodies
  other than the one in slot \<open>i\<close> of the collection, whatever their attributes.
\<close>

definition vector_sum :: "(real \<times> real) list \<Rightarrow> real \<times> real" where
  "vector_sum fs = fold (\<lambda>f (sx, sy). (sx + fst f, sy + snd f)) fs (0, 0)"

definition others :: "nat \<Rightarrow> Body list \<Rightarrow> Body list" where
  "others i bodies = take i bodies @ drop (Suc i) bodies"

definition net_force_by_identity :: "nat \<Rightarrow> Body list \<Rightarrow> real \<times> real" where
  "net_force_by_identity i bodies =
     vector_sum (map (calculate_gravitational_force (bodies ! i)) (others i bodies))"

text \<open>
  The accumulation of \<^verbatim>\<open>calculate_grav_force\<close> seen on the sequence of the forces it
  adds: the flat tuple that starts as \<open>(0, 0)\<close> and grows by two numbers per force.
\<close>

definition tuple_concat :: "(real \<times> real) list \<Rightarrow> real list" where
  "tuple_concat fs = fold (\<lambda>f force. force @ [fst f, snd f]) fs [0, 0]"

text \<open>
  A body that moves through the positions \<open>ps\<close> and records each of them with
  \<^verbatim>\<open>update_trace\<close>, as the end of every \<^verbatim>\<open>update\<close> does.
\<close>

definition record_positions :: "(real \<times> real) list \<Rightarrow> Body \<Rightarrow> Body" where
  "record_positions ps b = fold (\<lambda>p s. update_trace (s\<lparr>x := fst p, y := snd p\<rparr>)) ps b"

text \<open>
  The collections the main loop can hold, also in the middle of a frame: the initial
  one, a collection after a click, and a collection after the update of one of its
  bodies.
\<close>

inductive reachable :: "Body list \<Rightarrow> bool" where
  start: "main_bodies = Inr bodies \<Longrightarrow> reachable bodies"
| click: "reachable bodies \<Longrightarrow> mousebuttondown bodies mouse = Inr (bodies', warnings) \<Longrightarrow>
          reachable bodies'"
| move: "reachable bodies \<Longrightarrow> i < length bodies \<Longrightarrow>
         calculate_grav_force (bodies ! i) bodies = Inr b \<Longrightarrow> reachable (bodies[i := b])"

subsection \<open>Bodies for the examples\<close>

definition test_body :: "real \<Rightarrow> real \<Rightarrow> real \<times> real \<Rightarrow> color \<Rightarrow> Body" where
  "test_body px py velocity c =
     \<lparr>x = px, y = py, mass = 10, radius = 6, vx = fst velocity, vy = snd velocity,
      color = c, trace = []\<rparr>"

text \<open>A hundred positions, the \<open>k\<close>-th one at \<open>(k, 0)\<close>.\<close>

definition hundred_positions :: "(real \<times> real) list" where
  "hundred_positions = map (\<lambda>k. (real k, 0)) [0..<100]"

text \<open>The three bodies main starts with, written out.\<close>

definition initial_bodies :: "Body list" where
  "initial_bodies =
     [\<lparr>x = 300, y = 400, mass = 10, radius = 6, vx = 1 / 10, vy = 1 / 10,
       color = (116, 148, 196), trace = []\<rparr>,
      \<lparr>x = 400, y = 400 - sqrt 30000, mass = 10, radius = 6, vx = - (1 / 10), vy = 1 / 10,
       color = (106, 77, 97), trace = []\<rparr>,
      \<lparr>x = 500, y = 400, mass = 10, radius = 6, vx = 1 / 10, vy = - (1 / 10),
       color = (195, 212, 7), trace = []\<rparr>]"

section \<open>Auxiliary facts\<close>

subsection \<open>The flat tuple and its sums\<close>

lemma add_tuples_snoc:
  "add_tuples (t @ [a]) =
     (if length t mod 2 = 0 then (fst (add_tuples t) + a, snd (add_tuples t))
      else (fst (add_tuples t), snd (add_tuples t) + a))"
proof -
  let ?f = "\<lambda>s i (even, odd). if i mod 2 = 0 then (even + s ! i, odd) else (even, odd + s ! i)"
  have same: "fold (?f (t @ [a])) [0..<length t] (0, 0) = fold (?f t) [0..<length t] (0, 0)"
    by (rule fold_cong) (auto simp: nth_append)
  show ?thesis
    by (simp add: add_tuples_def same split: prod.split)
qed

lemma tuple_concat_snoc: "tuple_concat (fs @ [f]) = tuple_concat fs @ [fst f, snd f]"
  by (simp add: tuple_concat_def)

lemma length_tuple_concat: "length (tuple_concat fs) = 2 + 2 * length fs"
  by (induction fs rule: rev_induct) (simp_all add: tuple_concat_def)

lemma vector_sum_snoc:
  "vector_sum (fs @ [f]) = (fst (vector_sum fs) + fst f, snd (vector_sum fs) + snd f)"
  by (simp add: vector_sum_def split: prod.split)

lemma add_tuples_tuple_concat: "add_tuples (tuple_concat fs) = vector_sum fs"
proof (induction fs rule: rev_induct)
  case Nil
  have "add_tuples ([0] @ [0]) = (0, 0)"
    unfolding add_tuples_snoc by (simp add: add_tuples_def)
  then show ?case by (simp add: tuple_concat_def vector_sum_def)
next
  case (snoc f fs)
  have "add_tuples (tuple_concat (fs @ [f])) = add_tuples ((tuple_concat fs @ [fst f]) @ [snd f])"
    by (simp add: tuple_concat_snoc)
  also have "\<dots> = (fst (vector_sum fs) + fst f, snd (vector_sum fs) + snd f)"
    unfolding add_tuples_snoc by (simp add: length_tuple_concat snoc.IH)
  finally show ?case by (simp add: vector_sum_snoc)
qed

lemma force_tuple_tuple_concat:
  "force_tuple self bodies =
     tuple_concat (map (calculate_gravitational_force self) (filter (\<lambda>b. color b \<noteq> color self) bodies))"
proof -
  have "fold (\<lambda>body force.
             if Body_ne body self
             then force @ [fst (calculate_gravitational_force self body),
                           snd (calculate_gravitational_force self body)]
             else force) bodies acc
       = fold (\<lambda>f force. force @ [fst f, snd f])
          (map (calculate_gravitational_force self) (filter (\<lambda>b. color b \<noteq> color self) bodies)) acc" for acc
    by (induction bodies arbitrary: acc) (simp_all add: Body_ne_def Body_eq_def)
  then show ?thesis by (simp add: force_tuple_def tuple_concat_def)
qed

subsection \<open>Rounding to binary64\<close>

lemma rne_near:
  assumes "of_int n - 1 / 2 < q" "q < of_int n + 1 / 2"
  shows "rne q = n"
proof (cases "of_int n \<le> q")
  case True
  then have "\<lfloor>q\<rfloor> = n" using assms(2) by linarith
  then show ?thesis using assms(2) by (simp add: rne_def)
next
  case False
  then have f: "\<lfloor>q\<rfloor> = n - 1" using assms(1) by linarith
  have "1 / 2 < q - of_int (n - 1)" using assms(1) by simp
  then show ?thesis unfolding rne_def f by simp
qed

lemma rne_of_int: "rne (of_int m) = m"
  by (rule rne_near) simp_all

lemma rne_error: "\<bar>of_int (rne q) - q\<bar> \<le> 1 / 2"
  unfolding rne_def by (simp; linarith)

lemma f64_zero: "f64 0 = 0"
  by (simp add: f64_def)

lemma f64_near:
  assumes "2 ^ n \<le> r" "r < 2 ^ Suc n" "n \<le> 52"
    and "\<bar>r * 2 ^ (52 - n) - of_int m\<bar> < 1 / 2"
  shows "f64 r = of_int m / 2 ^ (52 - n)"
proof -
  have pos: "0 < r" using assms(1) by (smt (verit) zero_less_power)
  have "(2::real) powr of_int (int n) \<le> r \<and> r < 2 powr of_int (int n + 1)"
    using assms(1,2) by (simp add: powr_realpow powr_add)
  then have e: "\<lfloor>log 2 r\<rfloor> = int n"
    using pos by (simp add: floor_log_eq_powr_iff)
  have "(2::real) powr (real n - 52) = 2 powr (- real (52 - n))"
    using assms(3) by (simp add: of_nat_diff)
  also have "\<dots> = 1 / 2 ^ (52 - n)"
    by (simp add: powr_minus powr_realpow divide_inverse)
  finally have u: "(2::real) powr (real n - 52) = 1 / 2 ^ (52 - n)" .
  have "rne (r * 2 ^ (52 - n)) = m"
    using assms(4) by (intro rne_near) linarith+
  then show ?thesis
    using pos by (simp add: f64_def e u Let_def)
qed

lemma f64_eq_0_iff: "f64 r = 0 \<longleftrightarrow> r = 0"
proof
  assume z: "f64 r = 0"
  show "r = 0"
  proof (rule ccontr)
    assume nz: "r \<noteq> 0"
    define e where "e = \<lfloor>log 2 \<bar>r\<bar>\<rfloor>"
    define u :: real where "u = 2 powr (of_int e - 52)"
    have upos: "0 < u" by (simp add: u_def)
    have "2 powr of_int e \<le> \<bar>r\<bar>"
      using nz floor_log_eq_powr_iff [of "\<bar>r\<bar>" 2 e] by (simp add: e_def)
    then have "2 powr of_int e / u \<le> \<bar>r\<bar> / u"
      using upos by (simp add: divide_right_mono)
    moreover have "2 powr of_int e / u = 2 powr 52"
      by (simp add: u_def powr_diff [symmetric])
    ultimately have big: "2 ^ 52 \<le> \<bar>r / u\<bar>"
      using upos by simp
    have "of_int (rne (r / u)) * u = 0"
      using z nz by (simp add: f64_def Let_def e_def u_def)
    then have "rne (r / u) = 0" using upos by simp
    with rne_error [of "r / u"] have small: "\<bar>r / u\<bar> \<le> 1 / 2" by simp
    have "(1::real) / 2 < 2 ^ 52" by simp
    with big small show False by linarith
  qed
next
  assume "r = 0"
  then show "f64 r = 0" by (simp add: f64_def)
qed

subsection \<open>The cutoff of the force\<close>

lemma force_cutoff:
  "computed_distance a b < 40 \<Longrightarrow> calculate_gravitational_force a b = (0, 0)"
  by (simp add: calculate_gravitational_force_def computed_distance_def Let_def)

lemma force_beyond:
  assumes "\<not> computed_distance a b < 40" "mass a \<noteq> 0" "mass b \<noteq> 0"
  shows "calculate_gravitational_force a b \<noteq> (0, 0)"
proof
  assume z: "calculate_gravitational_force a b = (0, 0)"
  define dx where "dx = f64 (x b - x a)"
  define dy where "dy = f64 (y b - y a)"
  define force where
    "force = f64 (f64 (f64 (G * mass a) * mass b) / f64 ((computed_distance a b)\<^sup>2))"
  define angle where "angle = f64 (atan2 dy dx)"
  have d1: "1 \<le> computed_distance a b" by (simp add: computed_distance_def)
  then have "(computed_distance a b)\<^sup>2 \<noteq> 0" by simp
  then have fnz: "force \<noteq> 0"
    using assms(2,3) by (simp add: force_def f64_eq_0_iff G_def)
  have "calculate_gravitational_force a b =
          (f64 (force * f64 (cos angle)), f64 (force * f64 (sin angle)))"
    using assms(1)
    by (simp add: calculate_gravitational_force_def computed_distance_def Let_def
        force_def angle_def dx_def dy_def)
  with z have "f64 (force * f64 (cos angle)) = 0" "f64 (force * f64 (sin angle)) = 0"
    by simp_all
  with fnz have "cos angle = 0" "sin angle = 0"
    by (simp_all add: f64_eq_0_iff)
  with sin_cos_squared_add [of angle] show False by simp
qed

lemma coincident_distance:
  "x a = x b \<Longrightarrow> y a = y b \<Longrightarrow> computed_distance a b = 1"
  by (simp add: computed_distance_def f64_zero)

lemma f64_abs_le: "\<bar>f64 r\<bar> \<le> \<bar>r\<bar> * (1 + 1 / 2 ^ 53)"
proof (cases "r = 0")
  case True
  then show ?thesis by (simp add: f64_zero)
next
  case False
  define e where "e = \<lfloor>log 2 \<bar>r\<bar>\<rfloor>"
  define u :: real where "u = 2 powr (of_int e - 52)"
  define k where "k = rne (r / u)"
  have upos: "0 < u" by (simp add: u_def)
  have "2 powr of_int e \<le> \<bar>r\<bar>"
    using False floor_log_eq_powr_iff [of "\<bar>r\<bar>" 2 e] by (simp add: e_def)
  moreover have "2 powr of_int e = u * 2 ^ 52"
    by (simp add: u_def powr_diff)
  ultimately have ule: "u * 2 ^ 52 \<le> \<bar>r\<bar>" by simp
  have f: "f64 r = of_int k * u"
    using False by (simp add: f64_def Let_def e_def u_def k_def)
  have "\<bar>of_int k - r / u\<bar> \<le> 1 / 2"
    unfolding k_def by (rule rne_error)
  then have "\<bar>of_int k - r / u\<bar> * u \<le> 1 / 2 * u"
    using upos by (simp add: mult_right_mono)
  moreover have "\<bar>of_int k - r / u\<bar> * u = \<bar>of_int k * u - r\<bar>"
  proof -
    have "(of_int k - r / u) * u = of_int k * u - r"
      using upos by (simp add: left_diff_distrib)
    then have "\<bar>of_int k * u - r\<bar> = \<bar>of_int k - r / u\<bar> * \<bar>u\<bar>"
      by (simp only: abs_mult [symmetric])
    then show ?thesis using upos by simp
  qed
  ultimately have "\<bar>f64 r - r\<bar> \<le> u / 2" by (simp add: f)
  then have "\<bar>f64 r\<bar> \<le> \<bar>r\<bar> + u / 2" by linarith
  moreover have "u / 2 \<le> \<bar>r\<bar> / 2 ^ 53" using ule by simp
  ultimately have "\<bar>f64 r\<bar> \<le> \<bar>r\<bar> + \<bar>r\<bar> / 2 ^ 53" by linarith
  then show ?thesis by (simp add: distrib_left)
qed

lemma f64_square_le:
  assumes "\<bar>v\<bar> \<le> \<bar>w\<bar> * (1 + 1 / 2 ^ 53)"
  shows "\<bar>f64 (v\<^sup>2)\<bar> \<le> w\<^sup>2 * (1 + 1 / 2 ^ 53) ^ 3"
proof -
  let ?c = "1 + 1 / 2 ^ 53 :: real"
  have c: "0 \<le> ?c" by simp
  have "v\<^sup>2 = \<bar>v\<bar>\<^sup>2" by simp
  also have "\<dots> \<le> (\<bar>w\<bar> * ?c)\<^sup>2"
    using assms by (intro power_mono) simp_all
  also have "\<dots> = w\<^sup>2 * ?c\<^sup>2" by (simp only: power_mult_distrib power2_abs)
  finally have sq: "v\<^sup>2 \<le> w\<^sup>2 * ?c\<^sup>2" .
  have "\<bar>f64 (v\<^sup>2)\<bar> \<le> \<bar>v\<^sup>2\<bar> * ?c" by (rule f64_abs_le)
  also have "\<dots> = v\<^sup>2 * ?c" by simp
  also have "\<dots> \<le> (w\<^sup>2 * ?c\<^sup>2) * ?c"
    using sq c by (rule mult_right_mono)
  also have "\<dots> = w\<^sup>2 * ?c ^ 3" by (simp add: power3_eq_cube power2_eq_square)
  finally show ?thesis .
qed

lemma computed_distance_le:
  "computed_distance a b \<le> max 1 (separation a b * (1 + 1 / 2 ^ 53) ^ 3)"
proof -
  let ?c = "1 + 1 / 2 ^ 53 :: real"
  let ?dx = "x b - x a" and ?dy = "y b - y a"
  let ?d = "separation a b"
  define P where "P = f64 ((f64 ?dx)\<^sup>2)"
  define Q where "Q = f64 ((f64 ?dy)\<^sup>2)"
  define T where "T = f64 (P + Q)"
  have c: "0 \<le> ?c" by simp
  have d0: "0 \<le> ?d" by (simp add: separation_def)
  have d2: "?d\<^sup>2 = ?dx\<^sup>2 + ?dy\<^sup>2" by (simp add: separation_def)
  have P: "\<bar>P\<bar> \<le> ?dx\<^sup>2 * ?c ^ 3"
    unfolding P_def by (rule f64_square_le) (rule f64_abs_le)
  have Q: "\<bar>Q\<bar> \<le> ?dy\<^sup>2 * ?c ^ 3"
    unfolding Q_def by (rule f64_square_le) (rule f64_abs_le)
  have "\<bar>P + Q\<bar> \<le> ?dx\<^sup>2 * ?c ^ 3 + ?dy\<^sup>2 * ?c ^ 3"
    using P Q by linarith
  also have "\<dots> = ?d\<^sup>2 * ?c ^ 3" by (simp only: d2 distrib_right)
  finally have S: "\<bar>P + Q\<bar> \<le> ?d\<^sup>2 * ?c ^ 3" .
  have "\<bar>T\<bar> \<le> \<bar>P + Q\<bar> * ?c" unfolding T_def by (rule f64_abs_le)
  also have "\<dots> \<le> (?d\<^sup>2 * ?c ^ 3) * ?c" using S c by (rule mult_right_mono)
  also have "\<dots> = (?d * ?c\<^sup>2)\<^sup>2"
    by (simp add: power_mult_distrib power2_eq_square power3_eq_cube)
  finally have T: "\<bar>T\<bar> \<le> (?d * ?c\<^sup>2)\<^sup>2" .
  have "\<bar>sqrt T\<bar> = sqrt \<bar>T\<bar>" by (rule real_sqrt_abs' [symmetric])
  also have "\<dots> \<le> sqrt ((?d * ?c\<^sup>2)\<^sup>2)" using T by (rule real_sqrt_le_mono)
  also have "\<dots> = ?d * ?c\<^sup>2"
  proof -
    have "0 \<le> ?d * ?c\<^sup>2" using d0 by (intro mult_nonneg_nonneg) simp_all
    then show ?thesis by (simp only: real_sqrt_abs abs_of_nonneg)
  qed
  finally have R: "\<bar>sqrt T\<bar> \<le> ?d * ?c\<^sup>2" .
  have "f64 (sqrt T) \<le> \<bar>f64 (sqrt T)\<bar>" by simp
  also have "\<dots> \<le> \<bar>sqrt T\<bar> * ?c" by (rule f64_abs_le)
  also have "\<dots> \<le> (?d * ?c\<^sup>2) * ?c" using R c by (rule mult_right_mono)
  also have "\<dots> = ?d * ?c ^ 3" by (simp add: power2_eq_square power3_eq_cube)
  finally have "f64 (sqrt T) \<le> ?d * ?c ^ 3" .
  then show ?thesis
    by (simp add: computed_distance_def T_def P_def Q_def max.coboundedI2)
qed

lemma distance_below_cutoff:
  assumes "separation a b \<le> 40 - 1 / 10 ^ 9"
  shows "computed_distance a b < 40"
proof -
  let ?c = "1 + 1 / 2 ^ 53 :: real"
  have "separation a b * ?c ^ 3 \<le> (40 - 1 / 10 ^ 9) * ?c ^ 3"
    using assms by (rule mult_right_mono) simp
  also have "\<dots> < 40" by (simp add: power3_eq_cube)
  finally have "max 1 (separation a b * ?c ^ 3) < 40" by simp
  with computed_distance_le [of a b] show ?thesis by linarith
qed

subsection \<open>A pair at the edge of the cutoff\<close>

lemma f64_24: "f64 24 = 24"
  using f64_near [of 4 24 "24 * 2 ^ 48"] by simp

lemma f64_below_32: "f64 (32 - 1 / 2 ^ 48) = 32 - 1 / 2 ^ 48"
  using f64_near [of 4 "32 - 1 / 2 ^ 48" "2 ^ 53 - 1"] by simp

lemma f64_576: "f64 576 = 576"
  using f64_near [of 9 576 "576 * 2 ^ 43"] by simp

lemma f64_square_below_32: "f64 ((32 - 1 / 2 ^ 48)\<^sup>2) = 1024 - 1 / 2 ^ 42"
  using f64_near [of 9 "(32 - 1 / 2 ^ 48)\<^sup>2" "2 ^ 53 - 2"] by (simp add: power2_eq_square)

lemma f64_below_1600: "f64 (1600 - 1 / 2 ^ 42) = 1600 - 1 / 2 ^ 42"
  using f64_near [of 10 "1600 - 1 / 2 ^ 42" "1600 * 2 ^ 42 - 1"] by simp

lemma sqrt_below_1600:
  "40 - 1 / 2 ^ 48 < sqrt (1600 - 1 / 2 ^ 42)" "sqrt (1600 - 1 / 2 ^ 42) < 40"
proof -
  show "40 - 1 / 2 ^ 48 < sqrt (1600 - 1 / 2 ^ 42)"
    by (rule real_less_rsqrt) (simp add: power2_eq_square)
  show "sqrt (1600 - 1 / 2 ^ 42) < 40"
    by (rule real_less_lsqrt) simp_all
qed

lemma f64_sqrt_below_1600: "f64 (sqrt (1600 - 1 / 2 ^ 42)) = 40"
proof -
  let ?s = "sqrt (1600 - 1 / 2 ^ 42)"
  have lo: "40 - 1 / 2 ^ 48 < ?s" and hi: "?s < 40" by (rule sqrt_below_1600)+
  have b: "2 ^ 5 \<le> ?s" "?s < 2 ^ Suc 5" using lo hi by simp_all
  have "\<bar>?s * 2 ^ 47 - 40 * 2 ^ 47\<bar> < 1 / 2" using lo hi by simp
  then have "\<bar>?s * 2 ^ (52 - 5) - of_int (40 * 2 ^ 47)\<bar> < 1 / 2" by simp
  from f64_near [OF b _ this] show ?thesis by simp
qed

lemma edge_distance:
  "computed_distance (test_body 0 0 (0, 0) (217, 237, 146))
     (test_body 24 (32 - 1 / 2 ^ 48) (0, 0) (93, 115, 126)) = 40"
proof -
  let ?a = "test_body 0 0 (0, 0) (217, 237, 146)"
  let ?b = "test_body 24 (32 - 1 / 2 ^ 48) (0, 0) (93, 115, 126)"
  have dx: "x ?b - x ?a = 24" and dy: "y ?b - y ?a = 32 - 1 / 2 ^ 48"
    by (simp_all add: test_body_def)
  have sq: "(24::real)\<^sup>2 = 576" by simp
  have sum: "(576::real) + (1024 - 1 / 2 ^ 42) = 1600 - 1 / 2 ^ 42" by simp
  have "computed_distance ?a ?b = max 1 40"
    by (simp only: computed_distance_def dx dy f64_24 f64_below_32 sq f64_576
        f64_square_below_32 sum f64_below_1600 f64_sqrt_below_1600)
  then show ?thesis by simp
qed

lemma edge_separation:
  "separation (test_body 0 0 (0, 0) (217, 237, 146))
     (test_body 24 (32 - 1 / 2 ^ 48) (0, 0) (93, 115, 126)) < 40"
  unfolding separation_def by (rule real_less_lsqrt) (simp_all add: test_body_def power2_eq_square)

subsection \<open>Trace, reflection and the frame\<close>

lemma trace_update_trace:
  assumes "length (trace b) \<le> 99"
  shows "trace (update_trace b) = drop (length (trace b) + 1 - 99) (trace b @ [(x b, y b)])"
proof (cases "length (trace b) = 99")
  case True
  then have "trace b \<noteq> []" by auto
  with True show ?thesis
    by (simp add: update_trace_def Let_def drop_Suc)
next
  case False
  with assms have "length (trace b) < 99" by simp
  then show ?thesis
    by (simp add: update_trace_def Let_def)
qed

lemma length_trace_update_trace:
  "length (trace b) \<le> 99 \<Longrightarrow> length (trace (update_trace b)) \<le> 99"
  by (simp add: trace_update_trace)

lemma trace_record_positions:
  "length (trace b) \<le> 99 \<Longrightarrow>
     trace (record_positions ps b) = drop (length (trace b) + length ps - 99) (trace b @ ps)"
proof (induction ps arbitrary: b)
  case Nil
  then show ?case by (simp add: record_positions_def)
next
  case (Cons p ps)
  let ?b = "update_trace (b\<lparr>x := fst p, y := snd p\<rparr>)"
  have len: "length (trace (b\<lparr>x := fst p, y := snd p\<rparr>)) \<le> 99"
    using Cons.prems by simp
  have t: "trace ?b = drop (length (trace b) + 1 - 99) (trace b @ [p])"
    using trace_update_trace [OF len] by simp
  have l: "length (trace ?b) \<le> 99"
    using length_trace_update_trace [OF len] .
  have "trace (record_positions (p # ps) b) = trace (record_positions ps ?b)"
    by (simp add: record_positions_def)
  also have "\<dots> = drop (length (trace ?b) + length ps - 99) (trace ?b @ ps)"
    using Cons.IH [OF l] .
  also have "\<dots> = drop (length (trace b) + length (p # ps) - 99) (trace b @ p # ps)"
  proof (cases "length (trace b) = 99")
    case True
    then show ?thesis by (simp add: t drop_Suc tl_append split: list.split)
  next
    case False
    with Cons.prems have "length (trace b) < 99" by simp
    then show ?thesis by (simp add: t)
  qed
  finally show ?case .
qed

lemma check_boundaries_in_domain: "in_domain (check_boundaries b)"
  by (simp add: check_boundaries_def in_domain_def Let_def width_def height_def)

lemma check_boundaries_id: "in_domain b \<Longrightarrow> check_boundaries b = b"
  by (simp add: check_boundaries_def in_domain_def Let_def)

lemma in_domain_update_trace: "in_domain (update_trace b) = in_domain b"
  by (simp add: update_trace_def in_domain_def Let_def)

lemma mass_update_trace: "mass (update_trace b) = mass b"
  by (simp add: update_trace_def Let_def)

lemma mass_check_boundaries: "mass (check_boundaries b) = mass b"
  by (simp add: check_boundaries_def Let_def)

lemma integrate_Inr:
  "mass b \<noteq> 0 \<Longrightarrow>
     integrate b fx fy =
       Inr (b\<lparr>vx := vx b + fx / mass b, vy := vy b + fy / mass b,
              x := x b + (vx b + fx / mass b), y := y b + (vy b + fy / mass b)\<rparr>)"
  by (simp add: integrate_def Let_def)

lemma integrate_Inl: "mass b = 0 \<Longrightarrow> integrate b fx fy = Inl ZeroDivisionError"
  by (simp add: integrate_def)

lemma update_Inr_iff: "(\<exists>b'. update b fx fy = Inr b') = (mass b \<noteq> 0)"
  by (cases "mass b = 0") (simp_all add: update_def integrate_Inr integrate_Inl)

lemma update_in_domain: "update b fx fy = Inr b' \<Longrightarrow> in_domain b'"
  by (auto simp: update_def in_domain_update_trace check_boundaries_in_domain split: sum.splits)

lemma update_mass: "update b fx fy = Inr b' \<Longrightarrow> mass b' = mass b"
  by (cases "mass b = 0")
     (auto simp: update_def integrate_Inr integrate_Inl mass_update_trace mass_check_boundaries)

lemma calculate_grav_force_in_domain: "calculate_grav_force b bs = Inr b' \<Longrightarrow> in_domain b'"
  by (auto simp: calculate_grav_force_def split: prod.splits dest: update_in_domain)

lemma calculate_grav_force_mass: "calculate_grav_force b bs = Inr b' \<Longrightarrow> mass b' = mass b"
  by (auto simp: calculate_grav_force_def split: prod.splits dest: update_mass)

lemma calculate_grav_force_Inr: "mass b \<noteq> 0 \<Longrightarrow> \<exists>b'. calculate_grav_force b bs = Inr b'"
  using update_Inr_iff by (auto simp: calculate_grav_force_def split: prod.splits)

lemma step_loop_in_domain:
  "step_loop js bs = Inr bs' \<Longrightarrow>
     length bs' = length bs \<and>
     (\<forall>k < length bs. k \<in> set js \<or> in_domain (bs ! k) \<longrightarrow> in_domain (bs' ! k))"
proof (induction js arbitrary: bs)
  case Nil
  then show ?case by simp
next
  case (Cons i js)
  from Cons.prems obtain b where
    b: "calculate_grav_force (bs ! i) bs = Inr b" and rest: "step_loop js (bs[i := b]) = Inr bs'"
    by (auto split: sum.splits)
  have db: "in_domain b" using calculate_grav_force_in_domain [OF b] .
  from Cons.IH [OF rest] have
    len: "length bs' = length bs" and
    ih: "\<And>k. k < length bs \<Longrightarrow> k \<in> set js \<or> in_domain (bs[i := b] ! k) \<Longrightarrow> in_domain (bs' ! k)"
    by auto
  show ?case
  proof (intro conjI allI impI)
    show "length bs' = length bs" by (rule len)
  next
    fix k assume k: "k < length bs" and h: "k \<in> set (i # js) \<or> in_domain (bs ! k)"
    show "in_domain (bs' ! k)"
    proof (cases "k = i")
      case True
      then have "in_domain (bs[i := b] ! k)" using k db by simp
      then show ?thesis using ih [OF k] by blast
    next
      case False
      then have "bs[i := b] ! k = bs ! k" by simp
      with h False show ?thesis using ih [OF k] by auto
    qed
  qed
qed

lemma step_loop_total:
  "\<forall>b \<in> set bs. mass b \<noteq> 0 \<Longrightarrow> \<forall>j \<in> set js. j < length bs \<Longrightarrow> \<exists>bs'. step_loop js bs = Inr bs'"
proof (induction js arbitrary: bs)
  case Nil
  then show ?case by simp
next
  case (Cons i js)
  have i: "i < length bs" using Cons.prems(2) by simp
  then have mi: "mass (bs ! i) \<noteq> 0" using Cons.prems(1) by simp
  then obtain b where b: "calculate_grav_force (bs ! i) bs = Inr b"
    using calculate_grav_force_Inr by blast
  have mb: "mass b \<noteq> 0" using calculate_grav_force_mass [OF b] mi by simp
  have m: "\<forall>c \<in> set (bs[i := b]). mass c \<noteq> 0"
    using Cons.prems(1) mb set_update_subset_insert [of bs i b] by auto
  have r: "\<forall>j \<in> set js. j < length (bs[i := b])" using Cons.prems(2) by simp
  from Cons.IH [OF m r] show ?case by (simp add: b)
qed

lemma step_in_domain:
  assumes "step bs = Inr bs'"
  shows "length bs' = length bs \<and> (\<forall>b' \<in> set bs'. in_domain b')"
proof -
  from step_loop_in_domain [OF assms [unfolded step_def]]
  have len: "length bs' = length bs" and all: "\<forall>k < length bs. in_domain (bs' ! k)"
    by auto
  then show ?thesis by (auto simp: in_set_conv_nth)
qed

lemma step_total: "\<forall>b \<in> set bs. mass b \<noteq> 0 \<Longrightarrow> \<exists>bs'. step bs = Inr bs'"
  unfolding step_def by (rule step_loop_total) simp_all

subsection \<open>The net force as a sum\<close>

lemma net_force_filter:
  "net_force self bodies =
     vector_sum (map (calculate_gravitational_force self)
                   (filter (\<lambda>b. color b \<noteq> color self) bodies))"
  by (simp add: net_force_def force_tuple_tuple_concat add_tuples_tuple_concat)

lemma filter_distinct_others:
  assumes "i < length bodies" "distinct (map color bodies)"
  shows "filter (\<lambda>b. color b \<noteq> color (bodies ! i)) bodies = others i bodies"
proof -
  have split: "bodies = take i bodies @ bodies ! i # drop (Suc i) bodies"
    using assms(1) by (rule id_take_nth_drop)
  have "distinct (map color (take i bodies @ bodies ! i # drop (Suc i) bodies))"
    using assms(2) split by simp
  then have l: "\<forall>b \<in> set (take i bodies). color b \<noteq> color (bodies ! i)"
    and r: "\<forall>b \<in> set (drop (Suc i) bodies). color b \<noteq> color (bodies ! i)"
    by (fastforce simp: image_iff)+
  have "filter (\<lambda>b. color b \<noteq> color (bodies ! i)) (take i bodies @ bodies ! i # drop (Suc i) bodies)
          = take i bodies @ drop (Suc i) bodies"
    using l r by simp
  then show ?thesis using split by (simp add: others_def)
qed

subsection \<open>A body alone, the palette and the radius\<close>

lemma net_force_alone: "net_force b [b] = (0, 0)"
  by (simp add: net_force_filter vector_sum_def)

lemma calculate_grav_force_alone: "calculate_grav_force b [b] = update b 0 0"
  by (simp add: calculate_grav_force_def net_force_alone)

lemma y_update_trace: "y (update_trace b) = y b" and vy_update_trace: "vy (update_trace b) = vy b"
  and x_update_trace: "x (update_trace b) = x b" and vx_update_trace: "vx (update_trace b) = vx b"
  by (simp_all add: update_trace_def Let_def)

lemma check_boundaries_fields:
  "y (check_boundaries b) = (if y b < 0 then 0 else if y b > height then height else y b)"
  "vy (check_boundaries b) =
     (if y b < 0 then vy b * (- (1 / 2)) else if y b > height then vy b * (- (1 / 2)) else vy b)"
  "x (check_boundaries b) = (if x b < 0 then 0 else if x b > width then width else x b)"
  "vx (check_boundaries b) =
     (if x b < 0 then vx b * (- (1 / 2)) else if x b > width then vx b * (- (1 / 2)) else vx b)"
  "mass (check_boundaries b) = mass b"
  "radius (check_boundaries b) = radius b"
  "color (check_boundaries b) = color b"
  "trace (check_boundaries b) = trace b"
  by (simp_all add: check_boundaries_def Let_def REBOUND_FACTOR_def)

lemma rebound_alone:
  assumes "y b = height + 5" "vy b = 2" "mass b \<noteq> 0"
  shows "\<exists>b'. calculate_grav_force b [b] = Inr b' \<and> y b' = height \<and> vy b' = - 1"
proof -
  let ?s = "b\<lparr>vx := vx b + 0 / mass b, vy := vy b + 0 / mass b,
              x := x b + (vx b + 0 / mass b), y := y b + (vy b + 0 / mass b)\<rparr>"
  have u: "calculate_grav_force b [b] = Inr (update_trace (check_boundaries ?s))"
    by (simp add: calculate_grav_force_alone update_def integrate_Inr [OF assms(3)])
  have "y ?s = height + 7" "vy ?s = 2" using assms by simp_all
  then have "y (check_boundaries ?s) = height \<and> vy (check_boundaries ?s) = - 1"
    by (simp add: check_boundaries_fields height_def)
  then show ?thesis
    by (simp add: u y_update_trace vy_update_trace)
qed

lemma COLORS_index:
  assumes "n < 10"
  shows "py_index COLORS (int n - 3) = Inr (COLORS ! nat ((int n - 3) mod 7))"
proof (cases "3 \<le> n")
  case True
  then have "(int n - 3) mod 7 = int n - 3" using assms by simp
  then show ?thesis using True assms by (simp add: py_index_def COLORS_def)
next
  case False
  then have "int n - 3 < 0" "- 7 \<le> int n - 3" by simp_all
  moreover have "(int n - 3) mod 7 = 7 + (int n - 3)"
  proof -
    have "(int n - 3) mod 7 = (7 + (int n - 3)) mod 7" by (simp only: mod_add_self1)
    also have "\<dots> = 7 + (int n - 3)" using False by simp
    finally show ?thesis .
  qed
  ultimately show ?thesis by (simp add: py_index_def COLORS_def)
qed

lemma py_int_nonneg: "0 \<le> r \<Longrightarrow> py_int r = \<lfloor>r\<rfloor>"
  by (simp add: py_int_def)

lemma radius_of_MASS: "\<lfloor>2 * sqrt MASS\<rfloor> = 6"
proof -
  have lo: "3 \<le> sqrt (10::real)" by (rule real_le_rsqrt) simp
  have hi: "sqrt (10::real) < 7 / 2" by (rule real_less_lsqrt) (simp_all add: power2_eq_square)
  show ?thesis
    unfolding MASS_def using lo hi by (simp add: floor_eq_iff)
qed

lemma Body_init_Inr:
  "0 \<le> m \<Longrightarrow>
     Body_init px py m velocity c =
       Inr \<lparr>x = px, y = py, mass = m, radius = \<lfloor>2 * sqrt m\<rfloor>,
            vx = fst velocity, vy = snd velocity, color = c, trace = []\<rparr>"
  by (simp add: Body_init_def py_int_nonneg mult.commute)

subsection \<open>The collections of the main loop\<close>

lemma main_bodies_eq: "main_bodies = Inr initial_bodies"
proof -
  have m: "0 \<le> MASS" by (simp add: MASS_def)
  have r: "\<lfloor>2 * sqrt MASS\<rfloor> = 6" by (rule radius_of_MASS)
  show ?thesis
    unfolding main_bodies_def Let_def Body_init_Inr [OF m] r
    by (simp add: initial_bodies_def MASS_def)
qed

lemma color_update: "update b fx fy = Inr b' \<Longrightarrow> color b' = color b"
  by (cases "mass b = 0")
     (auto simp: update_def integrate_Inr integrate_Inl update_trace_def check_boundaries_fields Let_def)

lemma calculate_grav_force_color: "calculate_grav_force b bs = Inr b' \<Longrightarrow> color b' = color b"
  by (auto simp: calculate_grav_force_def split: prod.splits dest: color_update)

lemma palette_distinct:
  "distinct ([(116, 148, 196), (106, 77, 97), (195, 212, 7)] @ COLORS)"
  by (simp add: COLORS_def)

lemma mousebuttondown_append:
  assumes "length bodies < 10"
  shows "\<exists>b. mousebuttondown bodies mouse = Inr (bodies @ [b], []) \<and>
             color b = COLORS ! nat ((int (length bodies) - 3) mod 7)"
proof -
  have m: "0 \<le> MASS" by (simp add: MASS_def)
  show ?thesis
    using assms
    by (simp add: mousebuttondown_def COLORS_index [OF assms] Body_init_Inr [OF m])
qed

lemma reachable_colors:
  "reachable bodies \<Longrightarrow>
     3 \<le> length bodies \<and> length bodies \<le> 10 \<and>
     map color bodies =
       take (length bodies) ([(116, 148, 196), (106, 77, 97), (195, 212, 7)] @ COLORS)"
proof (induction rule: reachable.induct)
  case (start bodies)
  then have "bodies = initial_bodies" by (simp add: main_bodies_eq)
  then show ?case by (simp add: initial_bodies_def)
next
  case (click bodies mouse bodies' warnings)
  let ?P = "[(116, 148, 196), (106, 77, 97), (195, 212, 7)] @ COLORS"
  have n3: "3 \<le> length bodies" and n10: "length bodies \<le> 10"
    and cs: "map color bodies = take (length bodies) ?P"
    using click.IH by simp_all
  show ?case
  proof (cases "length bodies < 10")
    case True
    from mousebuttondown_append [OF True, of mouse] obtain b where
      b: "mousebuttondown bodies mouse = Inr (bodies @ [b], [])"
      and c: "color b = COLORS ! nat ((int (length bodies) - 3) mod 7)"
      by blast
    have eq: "bodies' = bodies @ [b]" using click.hyps(2) b by simp
    have "(int (length bodies) - 3) mod 7 = int (length bodies) - 3"
      using n3 True by simp
    then have cb: "color b = COLORS ! (length bodies - 3)"
      using c by (simp add: nat_diff_distrib')
    have "\<not> length bodies < length [(116, 148, 196), (106, 77, 97), (195, 212, 7) :: color]"
      using n3 by simp
    then have "?P ! length bodies = COLORS ! (length bodies - 3)"
      by (simp only: nth_append if_False) (simp add: numeral_3_eq_3)
    with cb have "color b = ?P ! length bodies" by simp
    moreover have "length bodies < length ?P" using True by (simp add: COLORS_def)
    ultimately have "take (Suc (length bodies)) ?P = take (length bodies) ?P @ [color b]"
      by (simp only: take_Suc_conv_app_nth)
    then show ?thesis using n3 True cs by (simp add: eq)
  next
    case False
    then have "bodies' = bodies" using click.hyps(2) by (simp add: mousebuttondown_def)
    then show ?thesis using click.IH by simp
  qed
next
  case (move bodies i b)
  have "color b = color (bodies ! i)" using move.hyps(3) by (rule calculate_grav_force_color)
  then have "map color (bodies[i := b]) = map color bodies"
    using move.hyps(2) by (simp add: map_update list_update_same_conv)
  then show ?case using move.IH by simp
qed

lemma reachable_distinct: "reachable bodies \<Longrightarrow> distinct (map color bodies)"
  using reachable_colors [of bodies] palette_distinct by (simp only: distinct_take)

lemma reachable_step_loop:
  "reachable bs \<Longrightarrow> \<forall>j \<in> set js. j < length bs \<Longrightarrow> step_loop js bs = Inr bs' \<Longrightarrow> reachable bs'"
proof (induction js arbitrary: bs)
  case Nil
  then show ?case by simp
next
  case (Cons i js)
  from Cons.prems(3) obtain b where
    b: "calculate_grav_force (bs ! i) bs = Inr b" and rest: "step_loop js (bs[i := b]) = Inr bs'"
    by (auto split: sum.splits)
  have i: "i < length bs" using Cons.prems(2) by simp
  have r: "reachable (bs[i := b])" using Cons.prems(1) i b by (rule reachable.move)
  have "\<forall>j \<in> set js. j < length (bs[i := b])" using Cons.prems(2) by simp
  with r show ?case using rest by (rule Cons.IH)
qed

lemma reachable_step: "reachable bs \<Longrightarrow> step bs = Inr bs' \<Longrightarrow> reachable bs'"
  unfolding step_def by (rule reachable_step_loop) simp_all

section \<open>The claims\<close>

subsection \<open>C1: which bodies enter the net force\<close>

text \<open>
  C1. In every collection the main loop can hold, the net force applied to the body in
  slot \<open>i\<close> is the component-wise sum of the pairwise forces from all other bodies of
  the collection, and it is the force that \<^verbatim>\<open>update\<close> receives. The source leaves out
  the bodies that \<^verbatim>\<open>Body.__eq__\<close> takes for equal, those of the same color; the
  colors of such a collection are pairwise distinct, so the bodies that pass the test
  are all the bodies but the one in slot \<open>i\<close>.
\<close>

theorem net_force_over_others:
  "reachable bodies \<Longrightarrow> i < length bodies \<Longrightarrow>
     net_force (bodies ! i) bodies = net_force_by_identity i bodies \<and>
     calculate_grav_force (bodies ! i) bodies =
       update (bodies ! i) (fst (net_force_by_identity i bodies))
         (snd (net_force_by_identity i bodies)) \<and>
     filter (\<lambda>body. Body_ne body (bodies ! i)) bodies = others i bodies"
proof -
  assume r: "reachable bodies" and i: "i < length bodies"
  have d: "distinct (map color bodies)" using r by (rule reachable_distinct)
  have f: "filter (\<lambda>b. color b \<noteq> color (bodies ! i)) bodies = others i bodies"
    using i d by (rule filter_distinct_others)
  have n: "net_force (bodies ! i) bodies = net_force_by_identity i bodies"
    by (simp add: net_force_filter f net_force_by_identity_def)
  have "(\<lambda>body. Body_ne body (bodies ! i)) = (\<lambda>b. color b \<noteq> color (bodies ! i))"
    by (simp add: Body_ne_def Body_eq_def)
  with f n show ?thesis
    by (simp add: calculate_grav_force_def split: prod.split)
qed

text \<open>The second of the three initial bodies is pulled by the first and the third.\<close>

theorem net_force_over_others_witness:
  "reachable initial_bodies \<and> 1 < length initial_bodies \<and>
   net_force (initial_bodies ! 1) initial_bodies = net_force_by_identity 1 initial_bodies \<and>
   others 1 initial_bodies = [initial_bodies ! 0, initial_bodies ! 2]"
proof -
  have r: "reachable initial_bodies" using main_bodies_eq by (rule reachable.start)
  have l: "1 < length initial_bodies" by (simp add: initial_bodies_def)
  have o: "others 1 initial_bodies = [initial_bodies ! 0, initial_bodies ! 2]"
    by (simp add: others_def initial_bodies_def)
  from net_force_over_others [OF r l] r l o show ?thesis by (simp only:)
qed

subsection \<open>C2: the trace keeps 99 points\<close>

text \<open>
  C2 at a body that starts with an empty trace and records a hundred positions, the
  \<open>k\<close>-th one being \<open>(k, 0)\<close>: \<^verbatim>\<open>update_trace\<close> tests the length after the append,
  so the hundredth append is followed by a removal; the trace then holds 99 points and
  its oldest one is the second position recorded.
\<close>

theorem trace_after_100_records:
  "length (trace (record_positions hundred_positions (test_body 0 0 (0, 0) (217, 237, 146)))) = 99 \<and>
   hd (trace (record_positions hundred_positions (test_body 0 0 (0, 0) (217, 237, 146)))) = (1, 0)"
proof -
  let ?b = "test_body 0 0 (0, 0) (217, 237, 146)"
  have e: "length (trace ?b) \<le> 99" by (simp add: test_body_def)
  have t: "trace (record_positions hundred_positions ?b) = drop 1 hundred_positions"
    using trace_record_positions [OF e, of hundred_positions]
    by (simp add: test_body_def hundred_positions_def)
  have h: "hd (drop 1 hundred_positions) = hundred_positions ! 1"
    by (rule hd_drop_conv_nth) (simp add: hundred_positions_def)
  show ?thesis
    unfolding t h by (simp add: hundred_positions_def)
qed

subsection \<open>C3: spawning a body\<close>

text \<open>
  C3. With ten bodies or more a click leaves the collection as it is and logs the
  warning. With fewer than ten it appends one body at the mouse position with mass
  \<open>MASS\<close>, velocity \<open>(0.1, 0.1)\<close>, the color of the palette at \<open>len(bodies) - 3\<close>, an
  empty trace and radius \<open>floor(2 * sqrt(mass))\<close>, which is 6. The constructor gives
  any position, mass (not negative), velocity and color it is called with to the new body.
\<close>

theorem spawn_cap:
  "(10 \<le> length bodies \<longrightarrow> mousebuttondown bodies mouse = Inr (bodies, [max_bodies_warning])) \<and>
   (length bodies < 10 \<longrightarrow>
      (\<exists>b. mousebuttondown bodies mouse = Inr (bodies @ [b], []) \<and>
           x b = fst mouse \<and> y b = snd mouse \<and> mass b = MASS \<and>
           vx b = 1 / 10 \<and> vy b = 1 / 10 \<and>
           color b = COLORS ! nat ((int (length bodies) - 3) mod 7) \<and>
           trace b = [] \<and> radius b = \<lfloor>2 * sqrt (mass b)\<rfloor> \<and> radius b = 6)) \<and>
   (0 \<le> m \<longrightarrow>
      Body_init px py m velocity c =
        Inr \<lparr>x = px, y = py, mass = m, radius = \<lfloor>2 * sqrt m\<rfloor>,
             vx = fst velocity, vy = snd velocity, color = c, trace = []\<rparr>)"
proof (intro conjI impI)
  assume "10 \<le> length bodies"
  then show "mousebuttondown bodies mouse = Inr (bodies, [max_bodies_warning])"
    by (simp add: mousebuttondown_def)
next
  assume n: "length bodies < 10"
  have m: "0 \<le> MASS" by (simp add: MASS_def)
  show "\<exists>b. mousebuttondown bodies mouse = Inr (bodies @ [b], []) \<and>
           x b = fst mouse \<and> y b = snd mouse \<and> mass b = MASS \<and>
           vx b = 1 / 10 \<and> vy b = 1 / 10 \<and>
           color b = COLORS ! nat ((int (length bodies) - 3) mod 7) \<and>
           trace b = [] \<and> radius b = \<lfloor>2 * sqrt (mass b)\<rfloor> \<and> radius b = 6"
    using n by (simp add: mousebuttondown_def COLORS_index [OF n] Body_init_Inr [OF m] radius_of_MASS)
next
  assume "0 \<le> m"
  then show "Body_init px py m velocity c =
        Inr \<lparr>x = px, y = py, mass = m, radius = \<lfloor>2 * sqrt m\<rfloor>,
             vx = fst velocity, vy = snd velocity, color = c, trace = []\<rparr>"
    by (rule Body_init_Inr)
qed

text \<open>Ten bodies: rejected. Three bodies: a fourth at the mouse, with the first color.\<close>

theorem spawn_cap_witness:
  "mousebuttondown (replicate 10 (test_body 0 0 (0, 0) (217, 237, 146))) (5, 6)
     = Inr (replicate 10 (test_body 0 0 (0, 0) (217, 237, 146)), [max_bodies_warning]) \<and>
   (\<exists>b. mousebuttondown (replicate 3 (test_body 0 0 (0, 0) (1, 2, 3))) (5, 6)
           = Inr (replicate 3 (test_body 0 0 (0, 0) (1, 2, 3)) @ [b], []) \<and>
        x b = 5 \<and> y b = 6 \<and> mass b = 10 \<and> color b = (217, 237, 146) \<and> trace b = [] \<and> radius b = 6) \<and>
   Body_init 1 2 4 (3, 5) (217, 237, 146)
     = Inr \<lparr>x = 1, y = 2, mass = 4, radius = 4, vx = 3, vy = 5, color = (217, 237, 146), trace = []\<rparr>"
proof -
  have a: "mousebuttondown (replicate 10 (test_body 0 0 (0, 0) (217, 237, 146))) (5, 6)
     = Inr (replicate 10 (test_body 0 0 (0, 0) (217, 237, 146)), [max_bodies_warning])"
    using spawn_cap [of "replicate 10 (test_body 0 0 (0, 0) (217, 237, 146))" "(5, 6)"] by simp
  have b: "\<exists>b. mousebuttondown (replicate 3 (test_body 0 0 (0, 0) (1, 2, 3))) (5, 6)
           = Inr (replicate 3 (test_body 0 0 (0, 0) (1, 2, 3)) @ [b], []) \<and>
        x b = 5 \<and> y b = 6 \<and> mass b = 10 \<and> color b = (217, 237, 146) \<and> trace b = [] \<and> radius b = 6"
  proof -
    have "length (replicate 3 (test_body 0 0 (0, 0) (1, 2, 3))) < 10" by simp
    from spawn_cap [of "replicate 3 (test_body 0 0 (0, 0) (1, 2, 3))" "(5, 6)",
        THEN conjunct2, THEN conjunct1, rule_format, OF this]
    show ?thesis by (auto simp add: MASS_def COLORS_def)
  qed
  have s4: "sqrt (4::real) = 2" by (rule real_sqrt_unique) simp_all
  have c: "Body_init 1 2 4 (3, 5) (217, 237, 146)
     = Inr \<lparr>x = 1, y = 2, mass = 4, radius = 4, vx = 3, vy = 5, color = (217, 237, 146), trace = []\<rparr>"
    using spawn_cap [of _ _ 4 1 2 "(3, 5)" "(217, 237, 146)"] by (simp add: s4)
  show ?thesis using a b c by blast
qed

subsection \<open>C4: no force below 40\<close>

text \<open>
  C4 as stated fails at the edge of the cutoff. For a body at \<open>(0, 0)\<close> and one at
  \<open>(24, 32 - 1 / 2 ^ 48)\<close> the separation is below 40, but the squares, their sum and the
  square root round to 40 exactly, the test \<^verbatim>\<open>distance < 40\<close> fails and the force
  is not \<open>(0, 0)\<close>.
\<close>

theorem cutoff_edge_counterexample:
  "separation (test_body 0 0 (0, 0) (217, 237, 146))
     (test_body 24 (32 - 1 / 2 ^ 48) (0, 0) (93, 115, 126)) < 40 \<and>
   calculate_gravitational_force (test_body 0 0 (0, 0) (217, 237, 146))
     (test_body 24 (32 - 1 / 2 ^ 48) (0, 0) (93, 115, 126)) \<noteq> (0, 0)"
proof -
  let ?a = "test_body 0 0 (0, 0) (217, 237, 146)"
  let ?b = "test_body 24 (32 - 1 / 2 ^ 48) (0, 0) (93, 115, 126)"
  have "\<not> computed_distance ?a ?b < 40" by (simp only: edge_distance)
  moreover have "mass ?a \<noteq> 0" "mass ?b \<noteq> 0" by (simp_all add: test_body_def)
  ultimately have "calculate_gravitational_force ?a ?b \<noteq> (0, 0)" by (rule force_beyond)
  with edge_separation show ?thesis by (rule conjI)
qed

text \<open>
  C4, as the code has it. Two bodies exert the force \<open>(0, 0)\<close> on each other when the
  distance the source computes is strictly less than 40. This is so whenever their
  separation is at most \<open>40 - 1 / 10 ^ 9\<close>, and whenever they are at the same position, where
  the computed distance is 1.
\<close>

theorem near_field_cutoff:
  "(computed_distance a b < 40 \<longrightarrow> calculate_gravitational_force a b = (0, 0)) \<and>
   (separation a b \<le> 40 - 1 / 10 ^ 9 \<longrightarrow> calculate_gravitational_force a b = (0, 0)) \<and>
   (x a = x b \<and> y a = y b \<longrightarrow> calculate_gravitational_force a b = (0, 0))"
proof (intro conjI impI)
  assume "computed_distance a b < 40"
  then show "calculate_gravitational_force a b = (0, 0)" by (rule force_cutoff)
next
  assume "separation a b \<le> 40 - 1 / 10 ^ 9"
  then have "computed_distance a b < 40" by (rule distance_below_cutoff)
  then show "calculate_gravitational_force a b = (0, 0)" by (rule force_cutoff)
next
  assume "x a = x b \<and> y a = y b"
  then have "computed_distance a b = 1" by (simp add: coincident_distance)
  then have "computed_distance a b < 40" by simp
  then show "calculate_gravitational_force a b = (0, 0)" by (rule force_cutoff)
qed

text \<open>Two bodies at the same position, and two bodies 30 apart.\<close>

theorem near_field_cutoff_witness:
  "computed_distance (test_body 7 9 (0, 0) (217, 237, 146)) (test_body 7 9 (1, 1) (93, 115, 126)) < 40 \<and>
   calculate_gravitational_force
     (test_body 7 9 (0, 0) (217, 237, 146)) (test_body 7 9 (1, 1) (93, 115, 126)) = (0, 0) \<and>
   separation (test_body 0 0 (0, 0) (217, 237, 146)) (test_body 18 24 (0, 0) (93, 115, 126))
     \<le> 40 - 1 / 10 ^ 9 \<and>
   calculate_gravitational_force
     (test_body 0 0 (0, 0) (217, 237, 146)) (test_body 18 24 (0, 0) (93, 115, 126)) = (0, 0)"
proof -
  let ?p = "test_body 7 9 (0, 0) (217, 237, 146)" and ?q = "test_body 7 9 (1, 1) (93, 115, 126)"
  let ?a = "test_body 0 0 (0, 0) (217, 237, 146)" and ?b = "test_body 18 24 (0, 0) (93, 115, 126)"
  have "computed_distance ?p ?q = 1"
    by (rule coincident_distance) (simp_all add: test_body_def)
  then have h1: "computed_distance ?p ?q < 40" by simp
  have "sqrt (900::real) = 30" by (rule real_sqrt_unique) simp_all
  then have "separation ?a ?b = 30" by (simp add: separation_def test_body_def)
  then have h2: "separation ?a ?b \<le> 40 - 1 / 10 ^ 9" by simp
  from near_field_cutoff [of ?p ?q] h1
  have c1: "calculate_gravitational_force ?p ?q = (0, 0)" by (simp only:)
  from near_field_cutoff [of ?a ?b] h2
  have c2: "calculate_gravitational_force ?a ?b = (0, 0)" by (simp only:)
  from h1 c1 h2 c2 show ?thesis by (intro conjI)
qed

subsection \<open>C6: the Euler step\<close>

text \<open>
  C6. On a body of mass other than 0, \<^verbatim>\<open>update\<close> first adds \<open>fx / mass\<close> and
  \<open>fy / mass\<close> to the velocity and then adds the new velocity to the position; the
  other fields stay, and the reflection and the trace come after.
\<close>

theorem update_semi_implicit_euler:
  "mass b \<noteq> 0 \<Longrightarrow>
     \<exists>s. integrate b fx fy = Inr s \<and>
         vx s = vx b + fx / mass b \<and> vy s = vy b + fy / mass b \<and>
         x s = x b + vx s \<and> y s = y b + vy s \<and>
         mass s = mass b \<and> radius s = radius b \<and> color s = color b \<and> trace s = trace b \<and>
         update b fx fy = Inr (update_trace (check_boundaries s))"
  by (simp add: update_def integrate_Inr)

theorem update_semi_implicit_euler_witness:
  "mass (test_body 10 20 (1, 2) (217, 237, 146)) \<noteq> 0 \<and>
   (\<exists>s. integrate (test_body 10 20 (1, 2) (217, 237, 146)) 10 20 = Inr s \<and>
        vx s = 2 \<and> vy s = 4 \<and> x s = 12 \<and> y s = 24)"
proof -
  have h: "mass (test_body 10 20 (1, 2) (217, 237, 146)) \<noteq> 0"
    by (simp add: test_body_def)
  from update_semi_implicit_euler [OF h, of 10 20]
  have "\<exists>s. integrate (test_body 10 20 (1, 2) (217, 237, 146)) 10 20 = Inr s \<and>
        vx s = 2 \<and> vy s = 4 \<and> x s = 12 \<and> y s = 24"
    by (auto simp add: test_body_def)
  with h show ?thesis by (rule conjI)
qed

subsection \<open>C7: the reflection\<close>

text \<open>
  C7. \<^verbatim>\<open>check_boundaries\<close> sets \<open>y\<close> to 0 below 0 and to \<open>height\<close> above \<open>height\<close>,
  and multiplies \<open>vy\<close> by \<open>-0.5\<close> in both cases; it does the same for \<open>x\<close>, \<open>vx\<close> and
  \<open>width\<close>; nothing else changes. A body with \<open>y = height + 5\<close> and \<open>vy = 2\<close> is
  reflected to \<open>y = height\<close> and \<open>vy = -1\<close>, and when it is the only body of the
  collection and its mass is not 0, a whole step ends with these values too.
\<close>

theorem check_boundaries_reflects:
  "y (check_boundaries b) = (if y b < 0 then 0 else if y b > height then height else y b) \<and>
   vy (check_boundaries b) =
     (if y b < 0 then vy b * (- (1 / 2)) else if y b > height then vy b * (- (1 / 2)) else vy b) \<and>
   x (check_boundaries b) = (if x b < 0 then 0 else if x b > width then width else x b) \<and>
   vx (check_boundaries b) =
     (if x b < 0 then vx b * (- (1 / 2)) else if x b > width then vx b * (- (1 / 2)) else vx b) \<and>
   mass (check_boundaries b) = mass b \<and> radius (check_boundaries b) = radius b \<and>
   color (check_boundaries b) = color b \<and> trace (check_boundaries b) = trace b \<and>
   (y b = height + 5 \<and> vy b = 2 \<longrightarrow>
      y (check_boundaries b) = height \<and> vy (check_boundaries b) = - 1) \<and>
   (y b = height + 5 \<and> vy b = 2 \<and> mass b \<noteq> 0 \<longrightarrow>
      (\<exists>b'. calculate_grav_force b [b] = Inr b' \<and> y b' = height \<and> vy b' = - 1))"
proof -
  have p: "y b = height + 5 \<and> vy b = 2 \<longrightarrow>
      y (check_boundaries b) = height \<and> vy (check_boundaries b) = - 1"
    by (simp add: check_boundaries_fields height_def)
  have q: "y b = height + 5 \<and> vy b = 2 \<and> mass b \<noteq> 0 \<longrightarrow>
      (\<exists>b'. calculate_grav_force b [b] = Inr b' \<and> y b' = height \<and> vy b' = - 1)"
    using rebound_alone by blast
  show ?thesis
    by (intro conjI p q check_boundaries_fields)
qed

theorem check_boundaries_reflects_witness:
  "y (test_body 100 605 (3, 2) (217, 237, 146)) = height + 5 \<and>
   vy (test_body 100 605 (3, 2) (217, 237, 146)) = 2 \<and>
   mass (test_body 100 605 (3, 2) (217, 237, 146)) \<noteq> 0 \<and>
   y (check_boundaries (test_body 100 605 (3, 2) (217, 237, 146))) = 600 \<and>
   vy (check_boundaries (test_body 100 605 (3, 2) (217, 237, 146))) = - 1 \<and>
   x (check_boundaries (test_body 100 605 (3, 2) (217, 237, 146))) = 100 \<and>
   vx (check_boundaries (test_body 100 605 (3, 2) (217, 237, 146))) = 3 \<and>
   (\<exists>b'. calculate_grav_force (test_body 100 605 (3, 2) (217, 237, 146))
            [test_body 100 605 (3, 2) (217, 237, 146)] = Inr b' \<and>
         y b' = 600 \<and> vy b' = - 1)"
proof -
  let ?b = "test_body 100 605 (3, 2) (217, 237, 146)"
  have h: "y ?b = height + 5" "vy ?b = 2" "mass ?b \<noteq> 0" "x ?b = 100" "vx ?b = 3"
    by (simp_all add: test_body_def height_def)
  from check_boundaries_reflects [of ?b] h show ?thesis
    by (simp add: height_def width_def)
qed

subsection \<open>C8: the position after a step\<close>

text \<open>
  C8. A body that \<^verbatim>\<open>update\<close> returns lies in the rectangle from \<open>(0, 0)\<close> to
  \<open>(width, height)\<close>. A frame that returns keeps the number of bodies and leaves every
  body in the rectangle, and a frame over bodies of mass other than 0 returns.
\<close>

theorem step_keeps_domain:
  "(update b fx fy = Inr b' \<longrightarrow> in_domain b') \<and>
   (step bs = Inr bs' \<longrightarrow> length bs' = length bs \<and> (\<forall>c \<in> set bs'. in_domain c)) \<and>
   ((\<forall>c \<in> set bs. mass c \<noteq> 0) \<longrightarrow> (\<exists>cs. step bs = Inr cs))"
  using update_in_domain step_in_domain step_total by blast

text \<open>A body outside the window on both axes is inside after one frame.\<close>

theorem step_keeps_domain_witness:
  "mass (test_body 795 (- 3) (20, 1) (217, 237, 146)) \<noteq> 0 \<and>
   \<not> in_domain (test_body 795 (- 3) (20, 1) (217, 237, 146)) \<and>
   (\<exists>cs. step [test_body 795 (- 3) (20, 1) (217, 237, 146)] = Inr cs) \<and>
   step [test_body 795 (- 3) (20, 1) (217, 237, 146)]
     = Inr [\<lparr>x = 800, y = 0, mass = 10, radius = 6, vx = - 10, vy = - (1 / 2),
             color = (217, 237, 146), trace = [(800, 0)]\<rparr>] \<and>
   in_domain \<lparr>x = 800, y = 0, mass = 10, radius = 6, vx = - 10, vy = - (1 / 2),
             color = (217, 237, 146), trace = [(800, 0)]\<rparr>"
proof -
  let ?b = "test_body 795 (- 3) (20, 1) (217, 237, 146)"
  let ?r = "\<lparr>x = 800, y = 0, mass = 10, radius = 6, vx = - 10, vy = - (1 / 2),
             color = (217, 237, 146), trace = [(800::real, 0::real)]\<rparr>"
  have m: "mass ?b \<noteq> 0" by (simp add: test_body_def)
  then have h: "\<forall>c \<in> set [?b]. mass c \<noteq> 0" by simp
  have n: "\<not> in_domain ?b" by (simp add: in_domain_def test_body_def)
  have s: "step [?b] = Inr [?r]"
    by (simp add: step_def calculate_grav_force_alone update_def integrate_def Let_def
        check_boundaries_def update_trace_def test_body_def width_def height_def
        REBOUND_FACTOR_def)
  from step_keeps_domain [of _ _ _ _ "[?b]", THEN conjunct2, THEN conjunct2, THEN mp, OF h]
  have e: "\<exists>cs. step [?b] = Inr cs" .
  from step_keeps_domain [of _ _ _ _ "[?b]" "[?r]", THEN conjunct2, THEN conjunct1, THEN mp, OF s]
  have "in_domain ?r" by simp
  with m n e s show ?thesis by blast
qed

subsection \<open>C9: reflecting twice\<close>

text \<open>
  C9. \<^verbatim>\<open>check_boundaries\<close> leaves a body inside the rectangle as it is, and applied
  twice to any body it does what it does applied once.
\<close>

theorem check_boundaries_idempotent:
  "(in_domain b \<longrightarrow> check_boundaries b = b) \<and>
   check_boundaries (check_boundaries b) = check_boundaries b"
  using check_boundaries_id check_boundaries_in_domain by blast

theorem check_boundaries_idempotent_witness:
  "in_domain (test_body 800 0 (3, 2) (217, 237, 146)) \<and>
   check_boundaries (test_body 800 0 (3, 2) (217, 237, 146)) = test_body 800 0 (3, 2) (217, 237, 146)"
proof -
  have h: "in_domain (test_body 800 0 (3, 2) (217, 237, 146))"
    by (simp add: in_domain_def test_body_def width_def height_def)
  from check_boundaries_idempotent [of "test_body 800 0 (3, 2) (217, 237, 146)"] h
  show ?thesis by blast
qed

subsection \<open>C10: the flat tuple against the running sum\<close>

text \<open>
  C10. For every finite sequence of forces, summing the even and the odd positions of
  the flat tuple built from \<open>(0, 0)\<close> by appending each force gives the component-wise
  sum of the forces; and the tuple that \<^verbatim>\<open>calculate_grav_force\<close> builds is this
  tuple for the forces of the bodies that pass its test.
\<close>

theorem add_tuples_is_vector_sum:
  "add_tuples (tuple_concat fs) = vector_sum fs \<and>
   force_tuple self bodies =
     tuple_concat (map (calculate_gravitational_force self)
                     (filter (\<lambda>body. Body_ne body self) bodies))"
proof -
  have "(\<lambda>body. Body_ne body self) = (\<lambda>b. color b \<noteq> color self)"
    by (simp add: Body_ne_def Body_eq_def)
  then show ?thesis
    by (simp add: add_tuples_tuple_concat force_tuple_tuple_concat)
qed

end
